theory Spec2Isabelle
  imports Complex_Main "HOL-Library.Log_Nat"
begin

section \<open>ClamSense API: the PSS-10 survey scorer and the heuristic risk estimator\<close>

text \<open>
  A shallow embedding of the two computational endpoints of \<^verbatim>\<open>main.py\<close>:
  \<^verbatim>\<open>pss10_score\<close> (POST /survey/pss10/score) and \<^verbatim>\<open>predict\<close> (POST /predict).
  Python \<^verbatim>\<open>int\<close> is \<^typ>\<open>int\<close>, \<^verbatim>\<open>str\<close> is \<^typ>\<open>string\<close>, \<^verbatim>\<open>Optional[int]\<close> is
  \<^typ>\<open>int option\<close>. A Python \<^verbatim>\<open>float\<close> is an IEEE 754 binary64 value; it is
  represented by the real number it denotes, and every arithmetic operation on floats
  rounds its exact result to the nearest binary64 value, as the hardware does.
  The field constraints of the pydantic request models are the validation predicates
  below; a request that fails them is answered by the boundary layer with a validation
  error and never reaches the handler.
\<close>

subsection \<open>Survey scorer\<close>

text \<open>
  What an endpoint answers instead of a response: the validation error of the boundary
  layer (HTTP 422), or an exception raised by the handler (HTTP 500).
\<close>

datatype error = ValidationError | OverflowError | ZeroDivisionError

text \<open>\<^verbatim>\<open>REVERSE_SCORED = {3, 4, 6, 7}\<close>, 0-indexed positions.\<close>

definition REVERSE_SCORED :: "nat set" where
  "REVERSE_SCORED = {3, 4, 6, 7}"

record PSS10Request =
  answers :: "int list"

record PSS10Response =
  score :: int
  band :: string
  explanation :: string

text \<open>\<^verbatim>\<open>Field(..., min_items=10, max_items=10)\<close> on \<^verbatim>\<open>answers\<close>.\<close>

definition valid_PSS10Request :: "PSS10Request \<Rightarrow> bool" where
  "valid_PSS10Request req \<longleftrightarrow> 10 \<le> length (answers req) \<and> length (answers req) \<le> 10"

text \<open>
  Lines 85-89: when some answer is not one of 0..4, every answer goes through
  \<^verbatim>\<open>min(4, max(0, int(a)))\<close>; otherwise the list is used as received.
\<close>

definition checked_answers :: "int list \<Rightarrow> int list" where
  "checked_answers as =
     (if list_ex (\<lambda>a. a \<notin> set [0, 1, 2, 3, 4]) as
      then map (\<lambda>a. min 4 (max 0 a)) as
      else as)"

text \<open>
  Lines 91-93: the loop \<^verbatim>\<open>for i, a in enumerate(answers): score += ...\<close>, with the
  running index and the running total as arguments.
\<close>

fun score_loop :: "nat \<Rightarrow> int list \<Rightarrow> int \<Rightarrow> int" where
  "score_loop i [] acc = acc"
| "score_loop i (a # as) acc =
     score_loop (Suc i) as (acc + (if i \<in> REVERSE_SCORED then 4 - a else a))"

text \<open>Line 96: the band of a total.\<close>

definition pss10_band :: "int \<Rightarrow> string" where
  "pss10_band acc =
     (if acc \<le> 13 then ''low'' else if acc \<le> 26 then ''moderate'' else ''high'')"

text \<open>
  Lines 97-101: the explanation of a band. The source strings hold the character
  U+2014 (em dash), which is written here as the three bytes of its UTF-8 encoding.
\<close>

definition em_dash :: string where
  "em_dash = [CHR 0xE2, CHR 0x80, CHR 0x94]"

definition pss10_explanation :: "string \<Rightarrow> string" where
  "pss10_explanation b =
     (if b = ''low'' then ''Low perceived stress''
      else if b = ''moderate''
        then ''Moderate perceived stress'' @ em_dash @ ''consider regular check-ins''
      else ''High perceived stress'' @ em_dash
             @ ''try immediate coping tools and consider professional support'')"

definition pss10_score :: "PSS10Request \<Rightarrow> PSS10Response" where
  "pss10_score req =
     (let as = checked_answers (answers req);
          acc = score_loop 0 as 0;
          b = pss10_band acc
      in \<lparr>score = acc, band = b, explanation = pss10_explanation b\<rparr>)"

text \<open>The endpoint: boundary validation, then the handler.\<close>

definition pss10_score_endpoint :: "PSS10Request \<Rightarrow> error + PSS10Response" where
  "pss10_score_endpoint req =
     (if valid_PSS10Request req then Inr (pss10_score req) else Inl ValidationError)"

text \<open>
  The survey score in the words of the specification: the sum over the ten positions
  of \<open>4 - a\<^sub>i\<close> at the positions 3, 4, 6 and 7 and of \<open>a\<^sub>i\<close> at the others.
\<close>

definition spec_survey_score :: "int list \<Rightarrow> int" where
  "spec_survey_score as =
     (\<Sum>i \<leftarrow> [0..<10]. if i \<in> {3, 4, 6, 7} then 4 - as ! i else as ! i)"

text \<open>
  Clamping in the words of the specification: a value below 0 becomes 0, a value above 4
  becomes 4, any other value is kept.
\<close>

definition spec_clamp_answer :: "int \<Rightarrow> int" where
  "spec_clamp_answer a = (if a < 0 then 0 else if 4 < a then 4 else a)"

subsection \<open>Python floats\<close>

text \<open>
  Rounding to the nearest integer, a tie going to the even one: the rounding mode of
  binary64 arithmetic and of \<^verbatim>\<open>round\<close>.
\<close>

definition round_half_even :: "real \<Rightarrow> int" where
  "round_half_even y =
     (let f = \<lfloor>y\<rfloor>; d = y - of_int f
      in if d < 1 / 2 then f else if 1 / 2 < d then f + 1
         else if even f then f else f + 1)"

text \<open>
  The binary exponent of a nonzero \<open>x\<close>: the \<open>e\<close> with \<open>2\<^sup>e \<le> |x| < 2\<^sup>e\<^sup>+\<^sup>1\<close>,
  computed from the number of bits of an integer.
\<close>

definition binade :: "real \<Rightarrow> int" where
  "binade x =
     (if 1 \<le> \<bar>x\<bar> then bitlen \<lfloor>\<bar>x\<bar>\<rfloor> - 1 else - bitlen (\<lceil>1 / \<bar>x\<bar>\<rceil> - 1))"

text \<open>
  The exponent of the grid of binary64 values around \<open>x\<close>: the binade of a normal
  number, and \<open>-1022\<close> in the subnormal range. The spacing of that grid is the unit in the
  last place of a 53-bit significand.
\<close>

definition grid_exp :: "real \<Rightarrow> int" where
  "grid_exp x = max (binade x) (- 1022)"

definition ulp :: "real \<Rightarrow> real" where
  "ulp x = 2 powi (max (binade x) (- 1022) - 52)"

text \<open>
  \<open>fl x\<close> is the binary64 value nearest to \<open>x\<close>, ties to even. It is what a float
  literal denotes (\<^verbatim>\<open>0.35\<close> is \<open>fl 0.35\<close>) and what an operation returns for the exact
  result \<open>x\<close>. The two zeros are not told apart. Results beyond the binary64 range
  (infinities) are not represented: for a validated request no float operation of the
  handler exceeds the magnitude of its \<^verbatim>\<open>heart_rate\<close>; the one operation that can leave
  the range is the division of two integers, which raises instead.
\<close>

definition fl :: "real \<Rightarrow> real" where
  "fl x = (if x = 0 then 0 else of_int (round_half_even (x / ulp x)) * ulp x)"

definition fadd :: "real \<Rightarrow> real \<Rightarrow> real" where
  "fadd a b = fl (a + b)"

definition fsub :: "real \<Rightarrow> real \<Rightarrow> real" where
  "fsub a b = fl (a - b)"

definition fmul :: "real \<Rightarrow> real \<Rightarrow> real" where
  "fmul a b = fl (a * b)"

definition fdiv :: "real \<Rightarrow> real \<Rightarrow> real" where
  "fdiv a b = fl (a / b)"

text \<open>
  \<^verbatim>\<open>a / b\<close> on two integers: the exact quotient correctly rounded, and
  \<^verbatim>\<open>OverflowError\<close> when the rounded quotient is not a finite binary64 value, that is
  when the quotient reaches the midpoint between the largest binary64 value,
  \<open>2\<^sup>1\<^sup>0\<^sup>2\<^sup>4 - 2\<^sup>9\<^sup>7\<^sup>1\<close>, and \<open>2\<^sup>1\<^sup>0\<^sup>2\<^sup>4\<close>.
\<close>

definition overflows :: "real \<Rightarrow> bool" where
  "overflows q \<longleftrightarrow> 2 ^ 1024 - 2 ^ 970 \<le> \<bar>q\<bar>"

definition int_truediv :: "int \<Rightarrow> int \<Rightarrow> error + real" where
  "int_truediv a b =
     (if b = 0 then Inl ZeroDivisionError
      else if overflows (real_of_int a / real_of_int b) then Inl OverflowError
      else Inr (fl (real_of_int a / real_of_int b)))"

text \<open>
  \<^verbatim>\<open>round(x, ndigits)\<close> on a float: the exact value of \<open>x\<close> is rounded to \<open>ndigits\<close>
  decimals, ties to even, and the decimal obtained is read back as a float.
\<close>

definition py_round :: "real \<Rightarrow> nat \<Rightarrow> real" where
  "py_round x ndigits = fl (of_int (round_half_even (x * 10 ^ ndigits)) / 10 ^ ndigits)"

subsection \<open>Risk estimator\<close>

text \<open>
  The request model of \<^verbatim>\<open>predict\<close>. The field \<^verbatim>\<open>pss10_score\<close> is named
  \<open>pss10_baseline\<close> here, since the handler of the survey endpoint has that name already.
  The three float fields hold finite binary64 values, the numbers of the JSON body. A
  NaN fails every constraint; the infinity that the decoder would also accept for
  \<^verbatim>\<open>heart_rate\<close>, with the component 1.0, is not represented.
\<close>

record PredictRequest =
  heart_rate :: real
  sleep_hours :: real
  steps :: int
  day_of_week :: int
  hour :: int
  mood_score :: real
  pss10_baseline :: "int option"

record PredictResponse =
  predicted_level :: real
  risk_band :: string
  factors :: "string list"

text \<open>
  The \<^verbatim>\<open>Field\<close> constraints, lines 106-112: \<^verbatim>\<open>gt=0\<close>; \<^verbatim>\<open>ge=0, le=14\<close>; \<^verbatim>\<open>ge=0\<close>;
  \<^verbatim>\<open>ge=0, le=6\<close>; \<^verbatim>\<open>ge=0, le=23\<close>; \<^verbatim>\<open>ge=0, le=1\<close>; and \<^verbatim>\<open>ge=0, le=40\<close> on a
  baseline that is present. There is no upper bound on \<^verbatim>\<open>steps\<close>.
\<close>

definition valid_PredictRequest :: "PredictRequest \<Rightarrow> bool" where
  "valid_PredictRequest req \<longleftrightarrow>
     0 < heart_rate req \<and>
     0 \<le> sleep_hours req \<and> sleep_hours req \<le> 14 \<and>
     0 \<le> steps req \<and>
     0 \<le> day_of_week req \<and> day_of_week req \<le> 6 \<and>
     0 \<le> hour req \<and> hour req \<le> 23 \<and>
     0 \<le> mood_score req \<and> mood_score req \<le> 1 \<and>
     (case pss10_baseline req of None \<Rightarrow> True | Some p \<Rightarrow> 0 \<le> p \<and> p \<le> 40)"

text \<open>
  Lines 123-130: the six components, one definition for each local variable. An integer
  operand of a float operation is converted first (\<^verbatim>\<open>55\<close> is \<open>55.0\<close>; a baseline, at
  most 40 once validated, is converted exactly). Line 125 divides two integers and
  raises \<^verbatim>\<open>OverflowError\<close> when \<^verbatim>\<open>steps\<close> is too large.
\<close>

definition hr_component :: "PredictRequest \<Rightarrow> real" where
  "hr_component req = min 1.0 (max 0.0 (fdiv (fsub (heart_rate req) 55) 55))"

definition sleep_component :: "PredictRequest \<Rightarrow> real" where
  "sleep_component req = fsub 1.0 (min 1.0 (fdiv (sleep_hours req) 8.0))"

definition steps_component :: "PredictRequest \<Rightarrow> error + real" where
  "steps_component req =
     (case int_truediv (steps req) 8000 of
        Inl e \<Rightarrow> Inl e
      | Inr q \<Rightarrow> Inr (fmul (max 0.0 (fsub 1.0 (min 1.0 q))) (fl 0.4)))"

definition mood_component :: "PredictRequest \<Rightarrow> real" where
  "mood_component req = fsub 1.0 (mood_score req)"

definition circadian_component :: "PredictRequest \<Rightarrow> real" where
  "circadian_component req = (if hour req \<in> set [10, 11, 15, 16] then fl 0.15 else 0.0)"

definition baseline_component :: "PredictRequest \<Rightarrow> real" where
  "baseline_component req =
     (case pss10_baseline req of
        None \<Rightarrow> 0.0
      | Some p \<Rightarrow> fmul (min 1.0 (fdiv (fl (real_of_int p)) 40.0)) (fl 0.3))"

text \<open>
  Line 132: the weighted sum, added from left to right, for a steps component \<open>st\<close>
  that was computed; line 133: the same value clamped.
\<close>

definition risk_sum :: "PredictRequest \<Rightarrow> real \<Rightarrow> real" where
  "risk_sum req st =
     fadd (fadd (fadd (fadd (fadd
       (fmul (fl 0.35) (hr_component req))
       (fmul (fl 0.25) (sleep_component req)))
       (fmul (fl 0.15) (mood_component req)))
       (fmul (fl 0.10) st))
       (circadian_component req))
       (baseline_component req)"

definition risk :: "PredictRequest \<Rightarrow> real \<Rightarrow> real" where
  "risk req st = max 0.0 (min 1.0 (risk_sum req st))"

text \<open>Line 135: the band of a clamped risk.\<close>

definition risk_band_of :: "real \<Rightarrow> string" where
  "risk_band_of r =
     (if r < fl 0.33 then ''low'' else if r < fl 0.66 then ''moderate'' else ''high'')"

text \<open>Lines 137-143: the list of factors, one conditional \<^verbatim>\<open>append\<close> after the other.\<close>

definition append_if :: "bool \<Rightarrow> string \<Rightarrow> string list \<Rightarrow> string list" where
  "append_if c tag fs = (if c then fs @ [tag] else fs)"

definition risk_factors :: "PredictRequest \<Rightarrow> real \<Rightarrow> string list" where
  "risk_factors req st =
     (let fs = [];
          fs = append_if (hr_component req > fl 0.6) ''elevated heart rate'' fs;
          fs = append_if (sleep_component req > fl 0.6) ''short sleep duration'' fs;
          fs = append_if (mood_component req > fl 0.6) ''low self-reported mood'' fs;
          fs = append_if (st > fl 0.4) ''very low activity'' fs;
          fs = append_if (circadian_component req > 0) ''typical peak hours'' fs;
          fs = append_if (baseline_component req > fl 0.15) ''high baseline stress'' fs
      in fs)"

text \<open>
  The handler. The only statement that can raise is the one of line 125; when it does,
  no response is built.
\<close>

definition predict :: "PredictRequest \<Rightarrow> error + PredictResponse" where
  "predict req =
     (case steps_component req of
        Inl e \<Rightarrow> Inl e
      | Inr st \<Rightarrow>
          Inr \<lparr>predicted_level = py_round (risk req st) 3,
               risk_band = risk_band_of (risk req st),
               factors = risk_factors req st\<rparr>)"

definition predict_endpoint :: "PredictRequest \<Rightarrow> error + PredictResponse" where
  "predict_endpoint req =
     (if valid_PredictRequest req then predict req else Inl ValidationError)"


text \<open>
  The six tags of the specification with their conditions, in evaluation order. The
  thresholds are the float literals of the comparisons.
\<close>

definition spec_tag_table :: "PredictRequest \<Rightarrow> real \<Rightarrow> (bool \<times> string) list" where
  "spec_tag_table req st =
     [(hr_component req > fl 0.6, ''elevated heart rate''),
      (sleep_component req > fl 0.6, ''short sleep duration''),
      (mood_component req > fl 0.6, ''low self-reported mood''),
      (st > fl 0.4, ''very low activity''),
      (circadian_component req > 0, ''typical peak hours''),
      (baseline_component req > fl 0.15, ''high baseline stress'')]"

text \<open>The request of the worked example: every indicator at its worst.\<close>

definition worst_case_request :: PredictRequest where
  "worst_case_request =
     \<lparr>heart_rate = 110, sleep_hours = 0, steps = 0, day_of_week = 0, hour = 10,
      mood_score = 0, pss10_baseline = Some 40\<rparr>"

text \<open>Further requests on which the estimator is evaluated below.\<close>

definition sample_request :: PredictRequest where
  "sample_request =
     \<lparr>heart_rate = 77, sleep_hours = 4, steps = 2000, day_of_week = 2, hour = 11,
      mood_score = 0.25, pss10_baseline = Some 20\<rparr>"



definition huge_steps_request :: PredictRequest where
  "huge_steps_request =
     \<lparr>heart_rate = 77, sleep_hours = 8, steps = 10 ^ 400, day_of_week = 4, hour = 0,
      mood_score = 0, pss10_baseline = None\<rparr>"

section \<open>Properties of the survey scorer\<close>

lemma length_ten_cases:
  assumes "length (xs::int list) = 10"
  obtains a0 a1 a2 a3 a4 a5 a6 a7 a8 a9 where "xs = [a0,a1,a2,a3,a4,a5,a6,a7,a8,a9]"
  using assms by (auto simp: length_Suc_conv numeral_eq_Suc intro: that)

lemma score_loop_ten:
  "score_loop 0 [a0,a1,a2,a3,a4,a5,a6,a7,a8,a9] 0
     = a0 + a1 + a2 + (4 - a3) + (4 - a4) + a5 + (4 - a6) + (4 - a7) + a8 + a9"
  by (simp add: REVERSE_SCORED_def)

lemma spec_survey_score_ten:
  "spec_survey_score [a0,a1,a2,a3,a4,a5,a6,a7,a8,a9]
     = a0 + a1 + a2 + (4 - a3) + (4 - a4) + a5 + (4 - a6) + (4 - a7) + a8 + a9"
  by (simp add: spec_survey_score_def upt_conv_Cons numeral_eq_Suc)

lemma score_loop_is_spec:
  assumes "length xs = 10"
  shows "score_loop 0 xs 0 = spec_survey_score xs"
proof -
  from assms obtain a0 a1 a2 a3 a4 a5 a6 a7 a8 a9
    where "xs = [a0,a1,a2,a3,a4,a5,a6,a7,a8,a9]" by (rule length_ten_cases)
  then show ?thesis by (simp only: score_loop_ten spec_survey_score_ten)
qed

lemma spec_clamp_answer_range: "0 \<le> spec_clamp_answer a \<and> spec_clamp_answer a \<le> 4"
  by (simp add: spec_clamp_answer_def)

lemma spec_clamp_answer_id: "0 \<le> a \<Longrightarrow> a \<le> 4 \<Longrightarrow> spec_clamp_answer a = a"
  by (simp add: spec_clamp_answer_def)

lemma not_in_range_iff: "(a::int) \<notin> set [0, 1, 2, 3, 4] \<longleftrightarrow> a < 0 \<or> 4 < a"
  by auto

lemma checked_answers_clamp: "checked_answers xs = map spec_clamp_answer xs"
proof (cases "list_ex (\<lambda>a. a \<notin> set [0, 1, 2, 3, 4]) xs")
  case True
  have "(\<lambda>a::int. min 4 (max 0 a)) = spec_clamp_answer"
    by (rule ext) (simp add: spec_clamp_answer_def min_def max_def)
  with True show ?thesis by (simp only: checked_answers_def if_True)
next
  case False
  then have "\<forall>a\<in>set xs. 0 \<le> a \<and> a \<le> 4"
    unfolding list_ex_iff not_in_range_iff by auto
  then have "map spec_clamp_answer xs = xs"
    by (intro map_idI) (simp add: spec_clamp_answer_id)
  with False show ?thesis by (simp only: checked_answers_def if_False)
qed

lemma spec_survey_score_bounds:
  assumes "length xs = 10" and "\<forall>a\<in>set xs. 0 \<le> a \<and> a \<le> 4"
  shows "0 \<le> spec_survey_score xs \<and> spec_survey_score xs \<le> 40"
proof -
  from assms(1) obtain a0 a1 a2 a3 a4 a5 a6 a7 a8 a9
    where xs: "xs = [a0,a1,a2,a3,a4,a5,a6,a7,a8,a9]" by (rule length_ten_cases)
  from assms(2) show ?thesis unfolding xs spec_survey_score_ten by simp
qed

lemma score_pss10_score:
  assumes "length (answers req) = 10"
  shows "score (pss10_score req) = spec_survey_score (map spec_clamp_answer (answers req))"
  using assms by (simp add: pss10_score_def Let_def checked_answers_clamp score_loop_is_spec)

text \<open>
  Claim C2. For a request of exactly ten answers, each one of 0, 1, 2, 3, 4, the score
  returned by the survey scorer is the sum over the positions 0..9 of \<open>4 - a\<^sub>i\<close> at the
  positions 3, 4, 6, 7 and of \<open>a\<^sub>i\<close> at the other positions, and it lies between 0 and 40.
\<close>

theorem survey_score_is_position_sum:
  assumes "length (answers req) = 10"
    and "\<forall>a\<in>set (answers req). a \<in> {0, 1, 2, 3, 4}"
  shows "score (pss10_score req) = spec_survey_score (answers req)
       \<and> 0 \<le> score (pss10_score req) \<and> score (pss10_score req) \<le> 40"
proof -
  from assms(2) have r: "\<forall>a\<in>set (answers req). 0 \<le> a \<and> a \<le> 4" by auto
  then have "map spec_clamp_answer (answers req) = answers req"
    by (intro map_idI) (simp add: spec_clamp_answer_id)
  with assms(1) have "score (pss10_score req) = spec_survey_score (answers req)"
    by (simp add: score_pss10_score)
  with spec_survey_score_bounds [OF assms(1) r] show ?thesis by simp
qed

theorem survey_score_is_position_sum_witness:
  "score (pss10_score \<lparr>answers = [0, 1, 2, 3, 4, 4, 3, 2, 1, 0]\<rparr>) = 12
   \<and> spec_survey_score [0, 1, 2, 3, 4, 4, 3, 2, 1, 0] = 12"
  using survey_score_is_position_sum [of "\<lparr>answers = [0, 1, 2, 3, 4, 4, 3, 2, 1, 0]\<rparr>"]
  by (simp add: spec_survey_score_ten)

text \<open>
  Claim C7. For a request of exactly ten integers, the boundary layer accepts the
  request whatever the values are; the answers that are scored are the received ones
  with every value below 0 replaced by 0 and every value above 4 replaced by 4, and the
  score is the position sum of that clamped list. The witness scores -1 as 0 and 7 as 4.
\<close>

theorem out_of_range_answers_are_clamped:
  assumes "length (answers req) = 10"
  shows "pss10_score_endpoint req = Inr (pss10_score req)
       \<and> checked_answers (answers req) = map spec_clamp_answer (answers req)
       \<and> score (pss10_score req) = spec_survey_score (map spec_clamp_answer (answers req))"
  using assms
  by (simp add: pss10_score_endpoint_def valid_PSS10Request_def checked_answers_clamp
      score_pss10_score)

theorem out_of_range_answers_are_clamped_witness:
  "pss10_score_endpoint \<lparr>answers = [-1, 7, 2, 7, -1, 0, 1, 2, 3, 4]\<rparr>
     = Inr (pss10_score \<lparr>answers = [-1, 7, 2, 7, -1, 0, 1, 2, 3, 4]\<rparr>)
   \<and> checked_answers [-1, 7, 2, 7, -1, 0, 1, 2, 3, 4] = [0, 4, 2, 4, 0, 0, 1, 2, 3, 4]
   \<and> score (pss10_score \<lparr>answers = [-1, 7, 2, 7, -1, 0, 1, 2, 3, 4]\<rparr>)
       = spec_survey_score [0, 4, 2, 4, 0, 0, 1, 2, 3, 4]
   \<and> score (pss10_score \<lparr>answers = [-1, 7, 2, 7, -1, 0, 1, 2, 3, 4]\<rparr>) = 22"
  using out_of_range_answers_are_clamped [of "\<lparr>answers = [-1, 7, 2, 7, -1, 0, 1, 2, 3, 4]\<rparr>"]
  by (simp add: spec_survey_score_ten spec_clamp_answer_def)

lemma pss10_score_clamped_request:
  "pss10_score (req\<lparr>answers := map spec_clamp_answer (answers req)\<rparr>) = pss10_score req"
proof -
  have "spec_clamp_answer \<circ> spec_clamp_answer = spec_clamp_answer"
    by (rule ext) (simp add: spec_clamp_answer_def)
  then show ?thesis
    by (simp add: pss10_score_def Let_def checked_answers_clamp)
qed

text \<open>
  Claim C9. The survey endpoint returns a response for every list of exactly ten
  integers, in range or not; the score of that response lies between 0 and 40, and the
  whole response is the one the scorer returns for the element-wise clamped list.
\<close>

theorem survey_scorer_total_on_ten_answers:
  assumes "length (answers req) = 10"
  shows "\<exists>resp. pss10_score_endpoint req = Inr resp
          \<and> 0 \<le> score resp \<and> score resp \<le> 40
          \<and> resp = pss10_score (req\<lparr>answers := map spec_clamp_answer (answers req)\<rparr>)"
proof -
  have "\<forall>a\<in>set (map spec_clamp_answer (answers req)). 0 \<le> a \<and> a \<le> 4"
    by (simp add: spec_clamp_answer_range)
  with assms have "0 \<le> spec_survey_score (map spec_clamp_answer (answers req))
      \<and> spec_survey_score (map spec_clamp_answer (answers req)) \<le> 40"
    by (intro spec_survey_score_bounds) simp_all
  with assms show ?thesis
    by (simp add: pss10_score_endpoint_def valid_PSS10Request_def score_pss10_score
        pss10_score_clamped_request)
qed

theorem survey_scorer_total_on_ten_answers_witness:
  "\<exists>resp. pss10_score_endpoint \<lparr>answers = [9, -3, 5, 100, -100, 4, 0, 2, 6, -1]\<rparr> = Inr resp
      \<and> 0 \<le> score resp \<and> score resp \<le> 40
      \<and> resp = pss10_score \<lparr>answers = [4, 0, 4, 4, 0, 4, 0, 2, 4, 0]\<rparr>"
  using survey_scorer_total_on_ten_answers
    [of "\<lparr>answers = [9, -3, 5, 100, -100, 4, 0, 2, 6, -1]\<rparr>"]
  by (simp add: spec_clamp_answer_def)

text \<open>
  Claim C5. The band of a score \<open>s\<close> is "low" exactly when \<open>s \<le> 13\<close>, "moderate"
  exactly when \<open>14 \<le> s \<le> 26\<close> and "high" exactly when \<open>s \<ge> 27\<close>; so 13 is low, 14 and
  26 are moderate and 27 is high. The response carries the band of its score, and its
  explanation is the one fixed sentence of its band.
\<close>

theorem survey_band_thresholds:
  "(pss10_band s = ''low'' \<longleftrightarrow> s \<le> 13)
   \<and> (pss10_band s = ''moderate'' \<longleftrightarrow> 14 \<le> s \<and> s \<le> 26)
   \<and> (pss10_band s = ''high'' \<longleftrightarrow> 27 \<le> s)
   \<and> pss10_band 13 = ''low'' \<and> pss10_band 14 = ''moderate''
   \<and> pss10_band 26 = ''moderate'' \<and> pss10_band 27 = ''high''
   \<and> band (pss10_score req) = pss10_band (score (pss10_score req))
   \<and> explanation (pss10_score req) = pss10_explanation (band (pss10_score req))
   \<and> pss10_explanation ''low'' = ''Low perceived stress''
   \<and> pss10_explanation ''moderate''
       = ''Moderate perceived stress'' @ em_dash @ ''consider regular check-ins''
   \<and> pss10_explanation ''high''
       = ''High perceived stress'' @ em_dash
           @ ''try immediate coping tools and consider professional support''"
  by (simp add: pss10_band_def pss10_explanation_def pss10_score_def Let_def)

theorem survey_band_thresholds_witness:
  "band (pss10_score \<lparr>answers = [4, 4, 4, 0, 0, 4, 0, 0, 4, 4]\<rparr>) = ''high''
   \<and> score (pss10_score \<lparr>answers = [4, 4, 4, 0, 0, 4, 0, 0, 4, 4]\<rparr>) = 40
   \<and> explanation (pss10_score \<lparr>answers = [4, 4, 4, 0, 0, 4, 0, 0, 4, 4]\<rparr>)
       = ''High perceived stress'' @ em_dash
           @ ''try immediate coping tools and consider professional support''"
  using survey_band_thresholds [of 40 "\<lparr>answers = [4, 4, 4, 0, 0, 4, 0, 0, 4, 4]\<rparr>"]
    score_pss10_score [of "\<lparr>answers = [4, 4, 4, 0, 0, 4, 0, 0, 4, 4]\<rparr>"]
  by (simp add: spec_survey_score_ten spec_clamp_answer_def)

section \<open>Properties of binary64 rounding\<close>

lemma rhe_cases: "round_half_even y = \<lfloor>y\<rfloor> \<or> round_half_even y = \<lfloor>y\<rfloor> + 1"
  by (simp add: round_half_even_def Let_def)

lemma rhe_of_int: "round_half_even (of_int n) = n"
  by (simp add: round_half_even_def)

lemma rhe_ge: "of_int n \<le> y \<Longrightarrow> n \<le> round_half_even y"
proof -
  assume "of_int n \<le> y"
  then have "n \<le> \<lfloor>y\<rfloor>" by (simp add: le_floor_iff)
  with rhe_cases [of y] show ?thesis by auto
qed

lemma rhe_le: "y \<le> of_int n \<Longrightarrow> round_half_even y \<le> n"
proof (cases "y = of_int n")
  case True
  then show ?thesis by (simp add: rhe_of_int)
next
  case False
  assume "y \<le> of_int n"
  with False have "y < of_int n" by simp
  then have "\<lfloor>y\<rfloor> < n" by (simp add: floor_less_iff)
  with rhe_cases [of y] show ?thesis by auto
qed

lemma rhe_mono: "x \<le> y \<Longrightarrow> round_half_even x \<le> round_half_even y"
proof (cases "\<lfloor>x\<rfloor> = \<lfloor>y\<rfloor>")
  case True
  assume "x \<le> y"
  then have "x - of_int \<lfloor>y\<rfloor> \<le> y - of_int \<lfloor>y\<rfloor>" by simp
  then show ?thesis using True by (auto simp: round_half_even_def Let_def)
next
  case False
  assume "x \<le> y"
  then have "\<lfloor>x\<rfloor> \<le> \<lfloor>y\<rfloor>" by (rule floor_mono)
  with False have "\<lfloor>x\<rfloor> + 1 \<le> \<lfloor>y\<rfloor>" by simp
  moreover have "round_half_even x \<le> \<lfloor>x\<rfloor> + 1" using rhe_cases [of x] by auto
  moreover have "\<lfloor>y\<rfloor> \<le> round_half_even y" using rhe_cases [of y] by auto
  ultimately show ?thesis by simp
qed


lemma binade_bounds:
  assumes "x \<noteq> 0"
  shows "2 powi binade x \<le> \<bar>x\<bar> \<and> \<bar>x\<bar> < 2 powi (binade x + 1)"
proof (cases "1 \<le> \<bar>x\<bar>")
  case True
  define n where "n = \<lfloor>\<bar>x\<bar>\<rfloor>"
  from True have n: "0 < n" unfolding n_def by simp
  from bitlen_bounds [OF n] have b: "2 ^ nat (bitlen n - 1) \<le> n" "n < 2 ^ nat (bitlen n)"
    by simp_all
  from n have b1: "1 \<le> bitlen n" by (simp add: bitlen_alt_def)
  have e: "binade x = bitlen n - 1" using True by (simp add: binade_def n_def)
  have "real_of_int (2 ^ nat (bitlen n - 1)) \<le> real_of_int n" using b(1) by (simp only: of_int_le_iff)
  also have "\<dots> \<le> \<bar>x\<bar>" unfolding n_def by simp
  finally have lo: "2 powi (bitlen n - 1) \<le> \<bar>x\<bar>"
    using b1 by (simp add: power_int_def)
  have "\<bar>x\<bar> < real_of_int n + 1" unfolding n_def by linarith
  also have "\<dots> \<le> real_of_int (2 ^ nat (bitlen n))"
    using b(2) by (metis add.commute of_int_1 of_int_add of_int_le_iff zless_imp_add1_zle)
  finally have hi: "\<bar>x\<bar> < 2 powi (bitlen n - 1 + 1)"
    using b1 by (simp add: power_int_def)
  from lo hi show ?thesis unfolding e by simp
next
  case False
  define y where "y = 1 / \<bar>x\<bar>"
  define m where "m = \<lceil>y\<rceil> - 1"
  from False assms have x: "0 < \<bar>x\<bar>" "\<bar>x\<bar> < 1" by simp_all
  then have y1: "1 < y" unfolding y_def by simp
  then have m: "0 < m" unfolding m_def by (simp add: less_ceiling_iff)
  from bitlen_bounds [OF m] have b: "2 ^ nat (bitlen m - 1) \<le> m" "m < 2 ^ nat (bitlen m)"
    by simp_all
  from m have b1: "1 \<le> bitlen m" by (simp add: bitlen_alt_def)
  have e: "binade x = - bitlen m" using False by (simp add: binade_def m_def y_def)
  have my: "real_of_int m < y" "y \<le> real_of_int m + 1" unfolding m_def by linarith+
  have "y \<le> real_of_int m + 1" by fact
  also have "\<dots> \<le> real_of_int (2 ^ nat (bitlen m))"
    using b(2) by (metis add.commute of_int_1 of_int_add of_int_le_iff zless_imp_add1_zle)
  finally have "y \<le> 2 ^ nat (bitlen m)" by simp
  then have "1 / \<bar>x\<bar> \<le> 2 ^ nat (bitlen m)" unfolding y_def .
  then have "1 \<le> 2 ^ nat (bitlen m) * \<bar>x\<bar>" using x(1) by (simp add: field_simps)
  then have lo: "2 powi (- bitlen m) \<le> \<bar>x\<bar>"
    using b1 by (simp add: power_int_def field_simps)
  have "real_of_int (2 ^ nat (bitlen m - 1)) \<le> real_of_int m" using b(1) by (simp only: of_int_le_iff)
  also have "\<dots> < y" by fact
  finally have "2 ^ nat (bitlen m - 1) < 1 / \<bar>x\<bar>" unfolding y_def by simp
  then have h: "2 ^ nat (bitlen m - 1) * \<bar>x\<bar> < 1" using x(1) by (simp add: field_simps)
  have hi: "\<bar>x\<bar> < 2 powi (- bitlen m + 1)"
  proof (cases "bitlen m = 1")
    case True
    then show ?thesis using x(2) by simp
  next
    case False
    with b1 have "- bitlen m + 1 < 0" by simp
    moreover have "nat (- (- bitlen m + 1)) = nat (bitlen m - 1)" by simp
    ultimately show ?thesis using h by (simp add: power_int_def field_simps)
  qed
  from lo hi show ?thesis unfolding e by simp
qed

lemma two_powi_less_imp: "(2::real) powi m < 2 powi n \<Longrightarrow> m < n"
proof (rule ccontr)
  assume a: "(2::real) powi m < 2 powi n" and "\<not> m < n"
  then have "n \<le> m" by simp
  then have "(2::real) powi n \<le> 2 powi m" by (rule power_int_increasing) simp
  with a show False by simp
qed

lemma binade_unique:
  assumes "2 powi e \<le> \<bar>x\<bar>" and "\<bar>x\<bar> < 2 powi (e + 1)"
  shows "binade x = e"
proof -
  have "(0::real) < 2 powi e" by simp
  with assms(1) have "0 < \<bar>x\<bar>" by linarith
  then have "x \<noteq> 0" by simp
  from binade_bounds [OF this]
  have b: "2 powi binade x \<le> \<bar>x\<bar>" "\<bar>x\<bar> < 2 powi (binade x + 1)" by simp_all
  from b(1) assms(2) have "(2::real) powi binade x < 2 powi (e + 1)" by simp
  then have 1: "binade x < e + 1" by (rule two_powi_less_imp)
  from assms(1) b(2) have "(2::real) powi e < 2 powi (binade x + 1)" by simp
  then have 2: "e < binade x + 1" by (rule two_powi_less_imp)
  from 1 2 show ?thesis by simp
qed

lemma ulp_pos: "0 < ulp x"
  by (simp add: ulp_def)

lemma fl_0: "fl 0 = 0"
  by (simp add: fl_def)

lemma fl_nonneg: "0 \<le> x \<Longrightarrow> 0 \<le> fl x"
proof -
  assume "0 \<le> x"
  then have "real_of_int 0 \<le> x / ulp x" using ulp_pos [of x] by simp
  then have "0 \<le> round_half_even (x / ulp x)" by (rule rhe_ge)
  then show ?thesis using ulp_pos [of x] by (simp add: fl_def)
qed

lemma fl_grid:
  assumes "x = of_int n * ulp x"
  shows "fl x = x"
proof (cases "x = 0")
  case True
  then show ?thesis by (simp add: fl_0)
next
  case False
  from assms have "x / ulp x = of_int n" using ulp_pos [of x] by (simp add: field_simps)
  then have "round_half_even (x / ulp x) = n" by (simp add: rhe_of_int)
  with False assms show ?thesis by (simp add: fl_def)
qed

lemma ulp_eq_normal:
  assumes "2 powi e \<le> \<bar>x\<bar>" and "\<bar>x\<bar> < 2 powi (e + 1)" and "- 1022 \<le> e"
  shows "ulp x = 2 powi (e - 52)"
  using binade_unique [OF assms(1,2)] assms(3) by (simp add: ulp_def max_def)

lemma ulp_eq_subnormal:
  assumes "x \<noteq> 0" and "\<bar>x\<bar> < 2 powi (- 1021)"
  shows "ulp x = 2 powi (- 1074)"
proof -
  from binade_bounds [OF assms(1)] assms(2)
  have "(2::real) powi binade x < 2 powi (- 1021)" by simp
  then have "binade x < - 1021" by (rule two_powi_less_imp)
  then show ?thesis by (simp add: ulp_def max_def)
qed

lemma fl_eval:
  assumes "2 powi e \<le> \<bar>x\<bar>" and "\<bar>x\<bar> < 2 powi (e + 1)" and "- 1022 \<le> e"
  shows "fl x = of_int (round_half_even (x / 2 powi (e - 52))) * 2 powi (e - 52)"
proof -
  have "(0::real) < 2 powi e" by simp
  with assms(1) have "0 < \<bar>x\<bar>" by linarith
  then have "x \<noteq> 0" by simp
  then show ?thesis by (simp add: fl_def ulp_eq_normal [OF assms])
qed

lemma ulp_grid_exp: "ulp x = 2 powi (grid_exp x - 52)"
  by (simp add: ulp_def grid_exp_def)

lemma scaled_less:
  assumes "0 < x"
  shows "x / ulp x < 2 ^ 53"
proof -
  from assms have "x \<noteq> 0" by simp
  from binade_bounds [OF this] assms have "x < 2 powi (binade x + 1)" by simp
  also have "\<dots> \<le> 2 powi (grid_exp x + 1)"
    by (rule power_int_increasing) (simp_all add: grid_exp_def)
  also have "\<dots> = 2 ^ 53 * ulp x"
    by (simp add: ulp_grid_exp power_int_diff power_int_add)
  finally show ?thesis using ulp_pos [of x] by (simp add: field_simps)
qed

lemma fl_upper:
  assumes "0 < x"
  shows "fl x \<le> 2 powi (grid_exp x + 1)"
proof -
  have "x / ulp x \<le> real_of_int (2 ^ 53)" using scaled_less [OF assms] by simp
  then have "round_half_even (x / ulp x) \<le> 2 ^ 53" by (rule rhe_le)
  then have "real_of_int (round_half_even (x / ulp x)) \<le> 2 ^ 53"
    by (metis of_int_le_iff of_int_numeral of_int_power)
  then have "real_of_int (round_half_even (x / ulp x)) * ulp x \<le> 2 ^ 53 * ulp x"
    using ulp_pos [of x] by (simp add: mult_right_mono)
  also have "2 ^ 53 * ulp x = 2 powi (grid_exp x + 1)"
    by (simp add: ulp_grid_exp power_int_diff power_int_add)
  finally show ?thesis using assms by (simp add: fl_def)
qed

lemma fl_lower:
  assumes "0 < x" and "- 1022 \<le> binade x"
  shows "2 powi (binade x) \<le> fl x"
proof -
  from assms(1) have "x \<noteq> 0" by simp
  from binade_bounds [OF this] assms(1) have lo: "2 powi binade x \<le> x" by simp
  from assms(2) have g: "grid_exp x = binade x" by (simp add: grid_exp_def)
  have u: "2 powi binade x = 2 ^ 52 * ulp x"
    by (simp add: ulp_grid_exp g power_int_diff)
  from lo have "real_of_int (2 ^ 52) \<le> x / ulp x"
    unfolding u using ulp_pos [of x] by (simp add: field_simps)
  then have "2 ^ 52 \<le> round_half_even (x / ulp x)" by (rule rhe_ge)
  then have "2 ^ 52 \<le> real_of_int (round_half_even (x / ulp x))"
    by (metis of_int_le_iff of_int_numeral of_int_power)
  then have "2 ^ 52 * ulp x \<le> real_of_int (round_half_even (x / ulp x)) * ulp x"
    using ulp_pos [of x] by (simp add: mult_right_mono)
  then show ?thesis unfolding u using assms(1) by (simp add: fl_def)
qed

lemma binade_mono:
  assumes "0 < x" and "x \<le> y"
  shows "binade x \<le> binade y"
proof -
  from assms have "x \<noteq> 0" "y \<noteq> 0" by simp_all
  from binade_bounds [OF this(1)] binade_bounds [OF this(2)] assms
  have "(2::real) powi binade x < 2 powi (binade y + 1)" by simp
  then have "binade x < binade y + 1" by (rule two_powi_less_imp)
  then show ?thesis by simp
qed

lemma fl_mono:
  assumes "0 \<le> x" and "x \<le> y"
  shows "fl x \<le> fl y"
proof (cases "x = 0")
  case True
  with assms fl_nonneg [of y] show ?thesis by (simp add: fl_0)
next
  case False
  with assms have x: "0 < x" and y: "0 < y" by simp_all
  have b: "binade x \<le> binade y" using x assms(2) by (rule binade_mono)
  then have g: "grid_exp x \<le> grid_exp y" by (simp add: grid_exp_def)
  show ?thesis
  proof (cases "grid_exp x = grid_exp y")
    case True
    then have u: "ulp x = ulp y" by (simp add: ulp_grid_exp)
    from assms(2) have "x / ulp y \<le> y / ulp y" using ulp_pos [of y] by (simp add: divide_right_mono)
    then have "round_half_even (x / ulp y) \<le> round_half_even (y / ulp y)" by (rule rhe_mono)
    then have "real_of_int (round_half_even (x / ulp y)) * ulp y \<le> real_of_int (round_half_even (y / ulp y)) * ulp y"
      using ulp_pos [of y] by (simp add: mult_right_mono)
    then show ?thesis using x y by (simp add: fl_def u)
  next
    case False
    with g have lt: "grid_exp x + 1 \<le> grid_exp y" by simp
    have "- 1022 \<le> grid_exp x" by (simp add: grid_exp_def)
    with lt have gy: "grid_exp y = binade y" and ny: "- 1022 \<le> binade y"
      by (simp_all add: grid_exp_def max_def split: if_splits)
    have "fl x \<le> 2 powi (grid_exp x + 1)" using x by (rule fl_upper)
    also have "\<dots> \<le> 2 powi (binade y)"
      using lt unfolding gy by (intro power_int_increasing) simp_all
    also have "\<dots> \<le> fl y" using y ny by (rule fl_lower)
    finally show ?thesis .
  qed
qed

lemma fl_idem:
  assumes "0 \<le> x"
  shows "fl (fl x) = fl x"
proof (cases "fl x = 0")
  case True
  then show ?thesis by (simp add: fl_0)
next
  case False
  then have x0: "x \<noteq> 0" by (auto simp: fl_0)
  with assms have x: "0 < x" by simp
  define n where "n = round_half_even (x / ulp x)"
  have v: "fl x = of_int n * ulp x" using x0 by (simp add: fl_def n_def)
  have vpos: "0 < fl x" using fl_nonneg [OF assms] False by simp
  have npos: "0 < n" using vpos ulp_pos [of x] unfolding v by (simp add: zero_less_mult_iff)
  have nle: "n \<le> 2 ^ 53"
    unfolding n_def using scaled_less [OF x] by (intro rhe_le) simp
  have "ulp (fl x) = ulp x \<or> (n = 2 ^ 53 \<and> ulp (fl x) = 2 * ulp x)"
  proof (cases "- 1022 \<le> binade x")
    case True
    then have g: "grid_exp x = binade x" by (simp add: grid_exp_def)
    have lo: "2 powi binade x \<le> fl x" using x True by (rule fl_lower)
    show ?thesis
    proof (cases "n = 2 ^ 53")
      case True
      then have "fl x = 2 ^ 53 * ulp x" unfolding v by simp
      also have "\<dots> = 2 powi (binade x + 1)"
        by (simp add: ulp_grid_exp g power_int_diff power_int_add)
      finally have e: "fl x = 2 powi (binade x + 1)" .
      have "ulp (fl x) = 2 powi (binade x + 1 - 52)"
        using \<open>- 1022 \<le> binade x\<close> unfolding e
        by (intro ulp_eq_normal) (simp_all add: power_int_add)
      also have "\<dots> = 2 * ulp x"
        by (simp add: ulp_grid_exp g power_int_diff power_int_add)
      finally show ?thesis using True by simp
    next
      case False
      with nle have "n + 1 \<le> 2 ^ 53" by simp
      then have "real_of_int (n + 1) \<le> 2 ^ 53"
        by (metis of_int_le_iff of_int_numeral of_int_power)
      then have "real_of_int n < 2 ^ 53" by simp
      then have "real_of_int n * ulp x < 2 ^ 53 * ulp x"
        using ulp_pos [of x] by (simp add: mult_strict_right_mono)
      also have "2 ^ 53 * ulp x = 2 powi (binade x + 1)"
        by (simp add: ulp_grid_exp g power_int_diff power_int_add)
      finally have hi: "fl x < 2 powi (binade x + 1)" unfolding v .
      have "ulp (fl x) = 2 powi (binade x - 52)"
        using lo hi vpos \<open>- 1022 \<le> binade x\<close> by (intro ulp_eq_normal) simp_all
      then show ?thesis by (simp add: ulp_grid_exp g)
    qed
  next
    case False
    then have g: "grid_exp x = - 1022" by (simp add: grid_exp_def)
    then have ux: "ulp x = 2 powi (- 1074)" by (simp add: ulp_grid_exp)
    from binade_bounds [OF x0] x have "x < 2 powi (binade x + 1)" by simp
    also have "\<dots> \<le> 2 powi (- 1022)"
      using False by (intro power_int_increasing) simp_all
    also have "\<dots> = 2 ^ 52 * ulp x" by (simp add: ux)
    finally have "x / ulp x \<le> real_of_int (2 ^ 52)"
      using ulp_pos [of x] by (simp add: field_simps)
    then have "n \<le> 2 ^ 52" unfolding n_def by (rule rhe_le)
    then have "real_of_int n \<le> 2 ^ 52"
      by (metis of_int_le_iff of_int_numeral of_int_power)
    then have "real_of_int n * ulp x \<le> 2 ^ 52 * ulp x"
      using ulp_pos [of x] by (simp add: mult_right_mono)
    also have "2 ^ 52 * ulp x = 2 powi (- 1022)" by (simp add: ux)
    also have "\<dots> < 2 powi (- 1021)" by (rule power_int_strict_increasing) simp_all
    finally have "\<bar>fl x\<bar> < 2 powi (- 1021)" using vpos unfolding v by simp
    with \<open>fl x \<noteq> 0\<close> have "ulp (fl x) = 2 powi (- 1074)" by (rule ulp_eq_subnormal)
    then show ?thesis by (simp add: ux)
  qed
  then show ?thesis
  proof
    assume u: "ulp (fl x) = ulp x"
    have "fl x = of_int n * ulp (fl x)" unfolding u by (rule v)
    then show ?thesis by (rule fl_grid)
  next
    assume u: "n = 2 ^ 53 \<and> ulp (fl x) = 2 * ulp x"
    then have n: "n = 2 ^ 53" and uu: "ulp (fl x) = 2 * ulp x" by blast+
    have "fl x = of_int n * ulp x" by (rule v)
    also have "\<dots> = of_int (2 ^ 52) * (2 * ulp x)" by (simp add: n)
    also have "\<dots> = of_int (2 ^ 52) * ulp (fl x)" by (simp only: uu)
    finally show ?thesis by (rule fl_grid)
  qed
qed

section \<open>Properties of the risk estimator\<close>

lemmas fl_compute = fl_def ulp_def binade_def compute_bitlen round_half_even_def Let_def

lemmas op_defs = fadd_def fsub_def fmul_def fdiv_def

lemmas component_defs =
  hr_component_def sleep_component_def steps_component_def mood_component_def
  circadian_component_def baseline_component_def int_truediv_def overflows_def

lemmas predict_defs =
  predict_def risk_def risk_sum_def risk_band_of_def risk_factors_def append_if_def
  py_round_def


lemma fl_1: "fl 1 = 1"
  by (simp add: fl_compute)

lemma fl_le_1: "0 \<le> x \<Longrightarrow> x \<le> 1 \<Longrightarrow> fl x \<le> 1"
  using fl_mono [of x 1] by (simp add: fl_1)

lemma fl_literal_04: "0 < fl 0.4 \<and> fl (fl 0.4) = fl 0.4"
  by (simp add: fl_idem) (simp add: fl_compute)





lemma valid_request_handled:
  "valid_PredictRequest req \<Longrightarrow> predict_endpoint req = predict req"
  by (simp add: predict_endpoint_def)

lemma predict_returns:
  assumes "predict req = Inr resp"
  obtains st where "steps_component req = Inr st"
    and "resp = \<lparr>predicted_level = py_round (risk req st) 3,
                  risk_band = risk_band_of (risk req st),
                  factors = risk_factors req st\<rparr>"
  using assms by (auto simp: predict_def split: sum.splits)

lemma steps_component_returns:
  assumes "steps_component req = Inr st"
  shows "\<not> overflows (real_of_int (steps req) / 8000)
       \<and> st = fmul (max 0 (fsub 1 (min 1 (fl (real_of_int (steps req) / 8000))))) (fl 0.4)"
  using assms by (auto simp: steps_component_def int_truediv_def split: if_splits)





lemma valid_sample_request: "valid_PredictRequest sample_request"
  by (simp add: valid_PredictRequest_def sample_request_def)



lemma valid_worst_case_request: "valid_PredictRequest worst_case_request"
  by (simp add: valid_PredictRequest_def worst_case_request_def)

lemma valid_huge_steps_request: "valid_PredictRequest huge_steps_request"
  by (simp add: valid_PredictRequest_def huge_steps_request_def)










lemma append_chain_filter:
  "(let fs = [];
        fs = append_if c1 t1 fs;
        fs = append_if c2 t2 fs;
        fs = append_if c3 t3 fs;
        fs = append_if c4 t4 fs;
        fs = append_if c5 t5 fs;
        fs = append_if c6 t6 fs
    in fs)
   = map snd (filter fst [(c1, t1), (c2, t2), (c3, t3), (c4, t4), (c5, t5), (c6, t6)])"
  by (cases c1; cases c2; cases c3; cases c4; cases c5; cases c6)
    (simp_all add: append_if_def)

lemma risk_factors_filter:
  "risk_factors req st = map snd (filter fst (spec_tag_table req st))"
  unfolding risk_factors_def spec_tag_table_def by (rule append_chain_filter)

lemma in_filtered_tags: "t \<in> set (map snd (filter fst tbl)) \<longleftrightarrow> (True, t) \<in> set tbl"
  by (induction tbl) auto

lemma very_low_activity_condition:
  "(True, ''very low activity'') \<in> set (spec_tag_table req st) \<longleftrightarrow> st > fl 0.4"
  by (simp add: spec_tag_table_def)



lemma sample_request_response:
  "predict_endpoint sample_request
     = Inr \<lparr>predicted_level = fl 0.708, risk_band = ''high'',
            factors = [''low self-reported mood'', ''typical peak hours'']\<rparr>"
  by (simp add: predict_endpoint_def valid_PredictRequest_def sample_request_def
      component_defs op_defs predict_defs fl_compute)







lemma steps_component_le:
  assumes "0 \<le> steps req" and "steps_component req = Inr st"
  shows "st \<le> fl 0.4"
proof -
  define q where "q = fl (real_of_int (steps req) / 8000)"
  define x where "x = max 0 (fsub 1 (min 1 q))"
  from steps_component_returns [OF assms(2)] have st: "st = fl (x * fl 0.4)"
    by (simp add: x_def q_def fmul_def)
  from assms(1) have "0 \<le> q" unfolding q_def by (intro fl_nonneg) simp
  then have "0 \<le> 1 - min 1 q" "1 - min 1 q \<le> 1" by simp_all
  then have "fl (1 - min 1 q) \<le> 1" by (rule fl_le_1)
  then have x: "0 \<le> x" "x \<le> 1" unfolding x_def by (simp_all add: fsub_def)
  from fl_literal_04 have d: "0 < fl 0.4" and i: "fl (fl 0.4) = fl 0.4" by simp_all
  from x d have "0 \<le> x * fl 0.4" "x * fl 0.4 \<le> fl 0.4"
    by (simp_all add: mult_left_le_one_le)
  then have "fl (x * fl 0.4) \<le> fl (fl 0.4)" by (rule fl_mono)
  then show ?thesis unfolding st i .
qed

text \<open>
  Claim C8. For a valid request and the response returned for it, the steps component
  is at most the float 0.4, so the strict test of line 141 fails and the tag
  "very low activity" is not among the returned factors.
\<close>

theorem very_low_activity_is_never_reported:
  assumes "valid_PredictRequest req" and "predict_endpoint req = Inr resp"
  shows "\<exists>st. steps_component req = Inr st \<and> st \<le> fl 0.4
          \<and> ''very low activity'' \<notin> set (factors resp)"
proof -
  from assms have "predict req = Inr resp" by (simp add: valid_request_handled)
  then obtain st where st: "steps_component req = Inr st"
    and resp: "resp = \<lparr>predicted_level = py_round (risk req st) 3,
                        risk_band = risk_band_of (risk req st),
                        factors = risk_factors req st\<rparr>"
    by (rule predict_returns)
  from assms(1) have "0 \<le> steps req" by (simp add: valid_PredictRequest_def)
  then have le: "st \<le> fl 0.4" using st by (rule steps_component_le)
  then have "\<not> st > fl 0.4" by simp
  moreover have "factors resp = map snd (filter fst (spec_tag_table req st))"
    by (simp add: resp risk_factors_filter)
  ultimately have "''very low activity'' \<notin> set (factors resp)"
    by (simp only: in_filtered_tags very_low_activity_condition not_False_eq_True)
  with st le show ?thesis by blast
qed

lemma worst_case_request_response:
  "predict_endpoint worst_case_request
     = Inr \<lparr>predicted_level = 1, risk_band = ''high'',
            factors = [''elevated heart rate'', ''short sleep duration'',
                       ''low self-reported mood'', ''typical peak hours'',
                       ''high baseline stress'']\<rparr>"
  by (simp add: predict_endpoint_def valid_PredictRequest_def worst_case_request_def
      component_defs op_defs predict_defs fl_compute)

lemma worst_case_steps_component: "steps_component worst_case_request = Inr (fl 0.4)"
  by (simp add: worst_case_request_def component_defs op_defs fl_compute)

theorem very_low_activity_is_never_reported_witness:
  "predict_endpoint worst_case_request
     = Inr \<lparr>predicted_level = 1, risk_band = ''high'',
            factors = [''elevated heart rate'', ''short sleep duration'',
                       ''low self-reported mood'', ''typical peak hours'',
                       ''high baseline stress'']\<rparr>
   \<and> steps_component worst_case_request = Inr (fl 0.4)
   \<and> ''very low activity''
       \<notin> set [''elevated heart rate'', ''short sleep duration'',
                ''low self-reported mood'', ''typical peak hours'',
                ''high baseline stress'']"
proof -
  from very_low_activity_is_never_reported
    [OF valid_worst_case_request worst_case_request_response]
  have "''very low activity''
      \<notin> set (factors \<lparr>predicted_level = 1, risk_band = ''high'',
            factors = [''elevated heart rate'', ''short sleep duration'',
                       ''low self-reported mood'', ''typical peak hours'',
                       ''high baseline stress'']\<rparr>)" by blast
  then have "''very low activity''
       \<notin> set [''elevated heart rate'', ''short sleep duration'',
                ''low self-reported mood'', ''typical peak hours'',
                ''high baseline stress'']"
    by simp
  with worst_case_request_response worst_case_steps_component show ?thesis by blast
qed

text \<open>
  Claim C10. Two valid requests that agree on every field but \<open>day_of_week\<close> get the
  same answer from the endpoint: the same response, with the same level, band and
  factors, or the same error.
\<close>

theorem day_of_week_has_no_influence:
  assumes "valid_PredictRequest r1" and "valid_PredictRequest r2"
    and "heart_rate r1 = heart_rate r2" and "sleep_hours r1 = sleep_hours r2"
    and "steps r1 = steps r2" and "hour r1 = hour r2"
    and "mood_score r1 = mood_score r2" and "pss10_baseline r1 = pss10_baseline r2"
  shows "predict_endpoint r1 = predict_endpoint r2"
proof -
  from assms(3-8) have "hr_component r1 = hr_component r2"
    and "sleep_component r1 = sleep_component r2"
    and "steps_component r1 = steps_component r2"
    and "mood_component r1 = mood_component r2"
    and "circadian_component r1 = circadian_component r2"
    and "baseline_component r1 = baseline_component r2"
    by (simp_all add: hr_component_def sleep_component_def steps_component_def
        mood_component_def circadian_component_def baseline_component_def)
  then have "predict r1 = predict r2"
    by (simp add: predict_def risk_def risk_sum_def risk_factors_def split: sum.splits)
  with assms(1,2) show ?thesis by (simp add: valid_request_handled)
qed

lemma valid_sample_request_sunday:
  "valid_PredictRequest (sample_request\<lparr>day_of_week := 6\<rparr>)"
  by (simp add: valid_PredictRequest_def sample_request_def)

theorem day_of_week_has_no_influence_witness:
  "predict_endpoint sample_request
     = Inr \<lparr>predicted_level = fl 0.708, risk_band = ''high'',
            factors = [''low self-reported mood'', ''typical peak hours'']\<rparr>
   \<and> predict_endpoint (sample_request\<lparr>day_of_week := 6\<rparr>)
     = Inr \<lparr>predicted_level = fl 0.708, risk_band = ''high'',
            factors = [''low self-reported mood'', ''typical peak hours'']\<rparr>"
proof -
  have "predict_endpoint sample_request
      = predict_endpoint (sample_request\<lparr>day_of_week := 6\<rparr>)"
    by (rule day_of_week_has_no_influence
          [OF valid_sample_request valid_sample_request_sunday]) simp_all
  with sample_request_response show ?thesis by simp
qed

text \<open>
  The error path: a valid request whose \<^verbatim>\<open>steps\<close> exceed the float range gets no
  response, and this is the only way for a valid request to get none.
\<close>

lemma huge_steps_request_overflows:
  "valid_PredictRequest huge_steps_request
   \<and> predict_endpoint huge_steps_request = Inl OverflowError"
  by (simp add: predict_endpoint_def valid_PredictRequest_def huge_steps_request_def
      component_defs predict_def)

lemma predict_endpoint_returns_iff:
  assumes "valid_PredictRequest req"
  shows "(\<exists>resp. predict_endpoint req = Inr resp)
           \<longleftrightarrow> \<not> overflows (real_of_int (steps req) / 8000)"
    and "overflows (real_of_int (steps req) / 8000)
           \<Longrightarrow> predict_endpoint req = Inl OverflowError"
  using assms
  by (simp_all add: valid_request_handled predict_def steps_component_def int_truediv_def)

text \<open>
  Claim C4, as stated, fails on the request with heart rate 110, no sleep, no steps,
  mood 0, hour 10 and baseline 40: the weighted sum is the float 1.24 and not 1.29, and
  the factors are five tags, "very low activity" not being one of them.
\<close>

theorem worst_case_counterexample:
  "risk_sum worst_case_request (fl 0.4) = fl 1.24
   \<and> risk_sum worst_case_request (fl 0.4) \<noteq> fl 1.29
   \<and> risk_sum worst_case_request (fl 0.4) \<noteq> 1.29
   \<and> steps_component worst_case_request = Inr (fl 0.4)
   \<and> predict_endpoint worst_case_request
       = Inr \<lparr>predicted_level = 1, risk_band = ''high'',
              factors = [''elevated heart rate'', ''short sleep duration'',
                         ''low self-reported mood'', ''typical peak hours'',
                         ''high baseline stress'']\<rparr>
   \<and> predict_endpoint worst_case_request
       \<noteq> Inr \<lparr>predicted_level = 1, risk_band = ''high'',
              factors = [''elevated heart rate'', ''short sleep duration'',
                         ''low self-reported mood'', ''very low activity'',
                         ''typical peak hours'', ''high baseline stress'']\<rparr>"
  by (simp add: predict_endpoint_def valid_PredictRequest_def worst_case_request_def
      component_defs op_defs predict_defs fl_compute)

text \<open>
  Claim C4, amended. For the request with heart rate 110, no sleep, no steps, mood 0,
  hour 10 and baseline 40, on any day of the week, the components are 1, 1, 1 and the
  floats 0.4, 0.15 and 0.3, the weighted sum is the float 1.24, which is clamped to the
  level 1.0, the band is "high", and the factors other than "very low activity" are
  "elevated heart rate", "short sleep duration", "low self-reported mood",
  "typical peak hours" and "high baseline stress", in this order.
\<close>

theorem worst_case_response:
  "hr_component (worst_case_request\<lparr>day_of_week := d\<rparr>) = 1
   \<and> sleep_component (worst_case_request\<lparr>day_of_week := d\<rparr>) = 1
   \<and> mood_component (worst_case_request\<lparr>day_of_week := d\<rparr>) = 1
   \<and> steps_component (worst_case_request\<lparr>day_of_week := d\<rparr>) = Inr (fl 0.4)
   \<and> circadian_component (worst_case_request\<lparr>day_of_week := d\<rparr>) = fl 0.15
   \<and> baseline_component (worst_case_request\<lparr>day_of_week := d\<rparr>) = fl 0.3
   \<and> \<bar>fl 0.4 - 0.4\<bar> < 1 / 10 ^ 16 \<and> \<bar>fl 0.15 - 0.15\<bar> < 1 / 10 ^ 16
   \<and> \<bar>fl 0.3 - 0.3\<bar> < 1 / 10 ^ 16
   \<and> risk_sum (worst_case_request\<lparr>day_of_week := d\<rparr>) (fl 0.4) = fl 1.24
   \<and> \<bar>fl 1.24 - 1.24\<bar> < 1 / 10 ^ 15
   \<and> risk (worst_case_request\<lparr>day_of_week := d\<rparr>) (fl 0.4) = 1.0
   \<and> (\<exists>resp. predict (worst_case_request\<lparr>day_of_week := d\<rparr>) = Inr resp
         \<and> predicted_level resp = 1.0
         \<and> risk_band resp = ''high''
         \<and> filter (\<lambda>t. t \<noteq> ''very low activity'') (factors resp)
             = [''elevated heart rate'', ''short sleep duration'',
                ''low self-reported mood'', ''typical peak hours'',
                ''high baseline stress''])"
  by (simp add: worst_case_request_def component_defs op_defs predict_defs fl_compute)

theorem worst_case_response_witness:
  "steps_component (worst_case_request\<lparr>day_of_week := 3\<rparr>) = Inr (fl 0.4)
   \<and> risk_sum (worst_case_request\<lparr>day_of_week := 3\<rparr>) (fl 0.4) = fl 1.24
   \<and> risk (worst_case_request\<lparr>day_of_week := 3\<rparr>) (fl 0.4) = 1.0"
  using worst_case_response [of 3] by blast

end
